theory Spec2Isabelle
  imports Complex_Main "HOL-Library.Sublist"
begin

section \<open>JavaScript values\<close>

text \<open>
  The four modules compute on JavaScript numbers. A number is modelled as an exact
  rational, one of the two infinities, or NaN. Binary rounding of IEEE doubles is not
  part of the model: arithmetic on finite values is exact, so a finite operation never
  overflows to an infinity. The two zeros are identified (JavaScript's \<open>===\<close>, \<open><\<close> and
  truthiness do not tell them apart).
\<close>

datatype jsnum = NaN | NegInf | Fin rat | PosInf

datatype jserr = TypeError | RangeError | Thrown

fun js_neg :: "jsnum \<Rightarrow> jsnum" where
  "js_neg NaN = NaN"
| "js_neg NegInf = PosInf"
| "js_neg PosInf = NegInf"
| "js_neg (Fin a) = Fin (- a)"

fun js_add :: "jsnum \<Rightarrow> jsnum \<Rightarrow> jsnum" where
  "js_add (Fin a) (Fin b) = Fin (a + b)"
| "js_add NaN _ = NaN"
| "js_add _ NaN = NaN"
| "js_add PosInf NegInf = NaN"
| "js_add NegInf PosInf = NaN"
| "js_add PosInf _ = PosInf"
| "js_add _ PosInf = PosInf"
| "js_add NegInf _ = NegInf"
| "js_add _ NegInf = NegInf"

definition js_sub :: "jsnum \<Rightarrow> jsnum \<Rightarrow> jsnum" where
  "js_sub a b = js_add a (js_neg b)"

fun js_mul :: "jsnum \<Rightarrow> jsnum \<Rightarrow> jsnum" where
  "js_mul (Fin a) (Fin b) = Fin (a * b)"
| "js_mul NaN _ = NaN"
| "js_mul _ NaN = NaN"
| "js_mul (Fin a) PosInf = (if a = 0 then NaN else if 0 < a then PosInf else NegInf)"
| "js_mul (Fin a) NegInf = (if a = 0 then NaN else if 0 < a then NegInf else PosInf)"
| "js_mul PosInf (Fin b) = (if b = 0 then NaN else if 0 < b then PosInf else NegInf)"
| "js_mul NegInf (Fin b) = (if b = 0 then NaN else if 0 < b then NegInf else PosInf)"
| "js_mul PosInf PosInf = PosInf"
| "js_mul NegInf NegInf = PosInf"
| "js_mul PosInf NegInf = NegInf"
| "js_mul NegInf PosInf = NegInf"

text \<open>Division; a zero divisor is the positive zero.\<close>

fun js_div :: "jsnum \<Rightarrow> jsnum \<Rightarrow> jsnum" where
  "js_div (Fin a) (Fin b) =
     (if b = 0 then (if a = 0 then NaN else if 0 < a then PosInf else NegInf)
      else Fin (a / b))"
| "js_div NaN _ = NaN"
| "js_div _ NaN = NaN"
| "js_div (Fin a) PosInf = Fin 0"
| "js_div (Fin a) NegInf = Fin 0"
| "js_div PosInf (Fin b) = (if 0 \<le> b then PosInf else NegInf)"
| "js_div NegInf (Fin b) = (if 0 \<le> b then NegInf else PosInf)"
| "js_div PosInf PosInf = NaN"
| "js_div PosInf NegInf = NaN"
| "js_div NegInf PosInf = NaN"
| "js_div NegInf NegInf = NaN"

text \<open>The relational operators: every comparison with NaN is false.\<close>

fun js_lt :: "jsnum \<Rightarrow> jsnum \<Rightarrow> bool" where
  "js_lt (Fin a) (Fin b) = (a < b)"
| "js_lt NaN _ = False"
| "js_lt _ NaN = False"
| "js_lt NegInf NegInf = False"
| "js_lt NegInf _ = True"
| "js_lt _ NegInf = False"
| "js_lt PosInf _ = False"
| "js_lt _ PosInf = True"

definition js_gt :: "jsnum \<Rightarrow> jsnum \<Rightarrow> bool" where
  "js_gt a b = js_lt b a"

definition js_le :: "jsnum \<Rightarrow> jsnum \<Rightarrow> bool" where
  "js_le a b = (a \<noteq> NaN \<and> b \<noteq> NaN \<and> \<not> js_lt b a)"

definition js_ge :: "jsnum \<Rightarrow> jsnum \<Rightarrow> bool" where
  "js_ge a b = js_le b a"

text \<open>\<open>Math.abs\<close>, \<open>Math.ceil\<close>, \<open>Math.round\<close> (ties go up) and \<open>Math.max\<close>.\<close>

fun js_abs :: "jsnum \<Rightarrow> jsnum" where
  "js_abs NaN = NaN"
| "js_abs NegInf = PosInf"
| "js_abs PosInf = PosInf"
| "js_abs (Fin a) = Fin \<bar>a\<bar>"

fun js_ceil :: "jsnum \<Rightarrow> jsnum" where
  "js_ceil (Fin a) = Fin (of_int \<lceil>a\<rceil>)"
| "js_ceil x = x"


definition js_max :: "jsnum \<Rightarrow> jsnum \<Rightarrow> jsnum" where
  "js_max a b = (if a = NaN \<or> b = NaN then NaN else if js_lt a b then b else a)"

text \<open>Truthiness of a number: 0 and NaN are falsy.\<close>

definition truthy :: "jsnum \<Rightarrow> bool" where
  "truthy a = (a \<noteq> NaN \<and> a \<noteq> Fin 0)"

text \<open>
  \<open>Number(x.toFixed(2))\<close> for a number \<open>x\<close>. \<open>toFixed\<close> prints NaN as \<open>"NaN"\<close>; a
  value of magnitude at least \<open>10^21\<close> (the infinities included) is printed by the
  number-to-string conversion, which \<open>Number\<close> reads back unchanged; any other value is
  printed as the sign followed by \<open>n / 100\<close>, where \<open>n\<close> is the integer closest to
  \<open>100 * |x|\<close>, the larger one on a tie.
\<close>

definition toFixed2_value :: "rat \<Rightarrow> rat" where
  "toFixed2_value a =
     (if 10 ^ 21 \<le> \<bar>a\<bar> then a
      else if a < 0 then - (of_int \<lfloor>(- a) * 100 + 1 / 2\<rfloor> / 100)
      else of_int \<lfloor>a * 100 + 1 / 2\<rfloor> / 100)"

fun toFixed2_Number :: "jsnum \<Rightarrow> jsnum" where
  "toFixed2_Number (Fin a) = Fin (toFixed2_value a)"
| "toFixed2_Number x = x"


subsection \<open>Values other than numbers\<close>

text \<open>
  A primitive value is undefined, null, a boolean, a number, a string, a BigInt or a
  symbol. An object takes part in the code below only through its conversion to a
  primitive with hint number (its \<open>valueOf\<close> and \<open>toString\<close> methods), so it is
  represented by the outcome of that conversion: a primitive, or the exception raised.
  Strings are sequences of 8-bit characters holding UTF-8.
\<close>

datatype jsprim =
  PUndefined | PNull | PBool bool | PNum jsnum | PStr string | PBigInt int | PSymbol

datatype jsval = Prim jsprim | Obj "jserr + jsprim"

fun ToPrimitive :: "jsval \<Rightarrow> jserr + jsprim" where
  "ToPrimitive (Prim p) = Inr p"
| "ToPrimitive (Obj r) = r"

text \<open>The test \<open>typeof v === "number"\<close>.\<close>

fun typeof_number :: "jsval \<Rightarrow> bool" where
  "typeof_number (Prim (PNum x)) = True"
| "typeof_number v = False"

subsection \<open>Strings to numbers\<close>

text \<open>
  The conversion of a string to a number: white space and line terminators are trimmed at
  both ends; the empty string is 0; the rest is a decimal literal with optional sign,
  fraction and exponent, the word \<open>Infinity\<close> with optional sign, or an unsigned
  hexadecimal, octal or binary integer literal; anything else is NaN.
\<close>

definition ws_seqs :: "string list" where
  "ws_seqs =
    [[CHR 0x09], [CHR 0x0A], [CHR 0x0B], [CHR 0x0C], [CHR 0x0D], [CHR 0x20],
     [CHR 0xC2, CHR 0xA0], [CHR 0xE1, CHR 0x9A, CHR 0x80],
     [CHR 0xE2, CHR 0x80, CHR 0x80], [CHR 0xE2, CHR 0x80, CHR 0x81],
     [CHR 0xE2, CHR 0x80, CHR 0x82], [CHR 0xE2, CHR 0x80, CHR 0x83],
     [CHR 0xE2, CHR 0x80, CHR 0x84], [CHR 0xE2, CHR 0x80, CHR 0x85],
     [CHR 0xE2, CHR 0x80, CHR 0x86], [CHR 0xE2, CHR 0x80, CHR 0x87],
     [CHR 0xE2, CHR 0x80, CHR 0x88], [CHR 0xE2, CHR 0x80, CHR 0x89],
     [CHR 0xE2, CHR 0x80, CHR 0x8A], [CHR 0xE2, CHR 0x80, CHR 0xA8],
     [CHR 0xE2, CHR 0x80, CHR 0xA9], [CHR 0xE2, CHR 0x80, CHR 0xAF],
     [CHR 0xE2, CHR 0x81, CHR 0x9F], [CHR 0xE3, CHR 0x80, CHR 0x80],
     [CHR 0xEF, CHR 0xBB, CHR 0xBF]]"

definition ws_prefix_len :: "string \<Rightarrow> nat" where
  "ws_prefix_len s = (case find (\<lambda>w. prefix w s) ws_seqs of None \<Rightarrow> 0 | Some w \<Rightarrow> length w)"

definition ws_suffix_len :: "string \<Rightarrow> nat" where
  "ws_suffix_len s = (case find (\<lambda>w. suffix w s) ws_seqs of None \<Rightarrow> 0 | Some w \<Rightarrow> length w)"

function trim_start :: "string \<Rightarrow> string" where
  "trim_start s = (if ws_prefix_len s = 0 then s else trim_start (drop (ws_prefix_len s) s))"
  by pat_completeness auto

function trim_end :: "string \<Rightarrow> string" where
  "trim_end s =
     (if ws_suffix_len s = 0 then s else trim_end (take (length s - ws_suffix_len s) s))"
  by pat_completeness auto

termination trim_start
proof (relation "measure length")
  fix s :: string
  assume "ws_prefix_len s \<noteq> 0"
  then have "s \<noteq> []"
    by (auto simp: ws_prefix_len_def ws_seqs_def)
  with \<open>ws_prefix_len s \<noteq> 0\<close>
  show "(drop (ws_prefix_len s) s, s) \<in> measure length"
    by simp
qed simp

termination trim_end
proof (relation "measure length")
  fix s :: string
  assume "ws_suffix_len s \<noteq> 0"
  then have "s \<noteq> []"
    by (auto simp: ws_suffix_len_def ws_seqs_def)
  with \<open>ws_suffix_len s \<noteq> 0\<close>
  show "(take (length s - ws_suffix_len s) s, s) \<in> measure length"
    by simp
qed simp

definition digit_value :: "char \<Rightarrow> nat option" where
  "digit_value c =
     (let n = (of_char c :: nat) in
      if 48 \<le> n \<and> n \<le> 57 then Some (n - 48)
      else if 97 \<le> n \<and> n \<le> 102 then Some (n - 87)
      else if 65 \<le> n \<and> n \<le> 70 then Some (n - 55)
      else None)"

definition is_decimal_digit :: "char \<Rightarrow> bool" where
  "is_decimal_digit c = (case digit_value c of None \<Rightarrow> False | Some d \<Rightarrow> d < 10)"

text \<open>The value of a non-empty string of digits of base \<open>b\<close>.\<close>

definition digits_value :: "nat \<Rightarrow> string \<Rightarrow> nat option" where
  "digits_value b s =
     (if s = [] then None
      else foldl (\<lambda>acc c.
             case acc of None \<Rightarrow> None
             | Some a \<Rightarrow> (case digit_value c of None \<Rightarrow> None
                          | Some d \<Rightarrow> if d < b then Some (a * b + d) else None))
           (Some 0) s)"

definition exponent_part :: "string \<Rightarrow> int option" where
  "exponent_part s =
     (case s of [] \<Rightarrow> Some 0
      | c # t \<Rightarrow>
          if c = CHR ''e'' \<or> c = CHR ''E'' then
            (case t of [] \<Rightarrow> None
             | x # d \<Rightarrow>
                 if x = CHR ''+'' then map_option int (digits_value 10 d)
                 else if x = CHR ''-'' then map_option (\<lambda>n. - int n) (digits_value 10 d)
                 else map_option int (digits_value 10 t))
          else None)"

definition pow10 :: "int \<Rightarrow> rat" where
  "pow10 k = (if 0 \<le> k then 10 ^ nat k else 1 / 10 ^ nat (- k))"

definition StrUnsignedDecimalLiteral :: "string \<Rightarrow> jsnum option" where
  "StrUnsignedDecimalLiteral s =
     (if s = ''Infinity'' then Some PosInf
      else
        let ip = takeWhile is_decimal_digit s;
            r1 = dropWhile is_decimal_digit s;
            has_dot = (case r1 of [] \<Rightarrow> False | c # _ \<Rightarrow> c = CHR ''.'');
            fp = (if has_dot then takeWhile is_decimal_digit (tl r1) else []);
            r2 = (if has_dot then dropWhile is_decimal_digit (tl r1) else r1)
        in if ip = [] \<and> fp = [] then None
           else (case digits_value 10 (ip @ fp) of None \<Rightarrow> None
                 | Some m \<Rightarrow> (case exponent_part r2 of None \<Rightarrow> None
                              | Some e \<Rightarrow> Some (Fin (of_nat m * pow10 (e - int (length fp)))))))"

definition StrDecimalLiteral :: "string \<Rightarrow> jsnum option" where
  "StrDecimalLiteral s =
     (case s of [] \<Rightarrow> None
      | c # t \<Rightarrow>
          if c = CHR ''+'' then StrUnsignedDecimalLiteral t
          else if c = CHR ''-'' then map_option js_neg (StrUnsignedDecimalLiteral t)
          else StrUnsignedDecimalLiteral s)"

definition NonDecimalIntegerLiteral :: "string \<Rightarrow> jsnum option" where
  "NonDecimalIntegerLiteral s =
     (let p = take 2 s; d = drop 2 s in
      if p = ''0x'' \<or> p = ''0X'' then map_option (\<lambda>n. Fin (of_nat n)) (digits_value 16 d)
      else if p = ''0o'' \<or> p = ''0O'' then map_option (\<lambda>n. Fin (of_nat n)) (digits_value 8 d)
      else if p = ''0b'' \<or> p = ''0B'' then map_option (\<lambda>n. Fin (of_nat n)) (digits_value 2 d)
      else None)"

definition StringToNumber :: "string \<Rightarrow> jsnum" where
  "StringToNumber s =
     (let t = trim_end (trim_start s) in
      if t = [] then Fin 0
      else (case NonDecimalIntegerLiteral t of Some v \<Rightarrow> v
            | None \<Rightarrow> (case StrDecimalLiteral t of Some v \<Rightarrow> v | None \<Rightarrow> NaN)))"

subsection \<open>Coercion to a number\<close>

text \<open>
  \<open>Number(v)\<close> called as a function: the value is converted to a primitive, then to a
  number; a symbol raises a TypeError.
\<close>

fun Number_prim :: "jsprim \<Rightarrow> jserr + jsnum" where
  "Number_prim PUndefined = Inr NaN"
| "Number_prim PNull = Inr (Fin 0)"
| "Number_prim (PBool b) = Inr (Fin (if b then 1 else 0))"
| "Number_prim (PNum x) = Inr x"
| "Number_prim (PStr s) = Inr (StringToNumber s)"
| "Number_prim (PBigInt i) = Inr (Fin (of_int i))"
| "Number_prim PSymbol = Inl TypeError"


text \<open>
  The comparison \<open>v < 0\<close>: the value is converted to a primitive; a BigInt is compared
  with 0 by its mathematical value, anything else is converted to a number first.
\<close>

definition less_than_zero :: "jsval \<Rightarrow> jserr + bool" where
  "less_than_zero v =
     (case ToPrimitive v of Inl e \<Rightarrow> Inl e
      | Inr p \<Rightarrow>
          (case p of PBigInt i \<Rightarrow> Inr (i < 0)
           | _ \<Rightarrow> (case Number_prim p of Inl e \<Rightarrow> Inl e
                   | Inr n \<Rightarrow> Inr (js_lt n (Fin 0)))))"

section \<open>Rounding utility\<close>

text \<open>
  The payment calculator's \<open>round2(val)\<close> is \<open>Number(Number(val).toFixed(2))\<close>.
  \<open>round2_number\<close> is the function on an argument that is a number already, as every
  call inside the calculator is.
\<close>

definition round2_number :: "jsnum \<Rightarrow> jsnum" where
  "round2_number x = toFixed2_Number x"



section \<open>Payment calculator\<close>

text \<open>
  A payment entry carries an amount, which may be missing; the customer balance carries
  \<open>net_balance\<close>. The computed properties are functions of the reactive inputs they
  read.
\<close>

record payment_entry =
  amount :: "jsnum option"

record customer_balance =
  net_balance :: jsnum

text \<open>\<open>entry.amount || 0\<close>\<close>

definition amount_or_zero :: "payment_entry \<Rightarrow> jsnum" where
  "amount_or_zero entry =
     (case amount entry of None \<Rightarrow> Fin 0 | Some a \<Rightarrow> if truthy a then a else Fin 0)"

definition totalPaid :: "payment_entry list \<Rightarrow> jsnum" where
  "totalPaid paymentEntries =
     (let sum = foldl (\<lambda>acc entry. js_add acc (amount_or_zero entry)) (Fin 0) paymentEntries
      in round2_number sum)"


definition totalAvailableCredit :: "customer_balance \<Rightarrow> jsnum" where
  "totalAvailableCredit customerBalance = round2_number (js_neg (net_balance customerBalance))"

definition remainingAvailableCredit :: "customer_balance \<Rightarrow> (string \<Rightarrow> jsnum) \<Rightarrow> jsnum" where
  "remainingAvailableCredit customerBalance getMethodTotal =
     (let usedCredit = getMethodTotal ''Customer Credit'';
          remaining = js_sub (totalAvailableCredit customerBalance) usedCredit
      in if js_gt remaining (Fin 0) then round2_number remaining else Fin 0)"

definition remainingAmount :: "payment_entry list \<Rightarrow> jsnum \<Rightarrow> jsnum" where
  "remainingAmount paymentEntries grandTotal =
     (let remaining = js_sub (round2_number grandTotal) (totalPaid paymentEntries)
      in if js_gt remaining (Fin 0) then round2_number remaining else Fin 0)"

definition changeAmount :: "payment_entry list \<Rightarrow> jsnum \<Rightarrow> jsnum" where
  "changeAmount paymentEntries grandTotal =
     (let change = js_sub (totalPaid paymentEntries) (round2_number grandTotal)
      in if js_gt change (Fin 0) then round2_number change else Fin 0)"

section \<open>Quick-amount suggester\<close>

text \<open>
  The set \<open>amounts\<close> is a list without repetition in insertion order, which is the order
  in which a JavaScript \<open>Set\<close> is iterated and converted to an array.
\<close>

definition set_add :: "jsnum list \<Rightarrow> jsnum \<Rightarrow> jsnum list" where
  "set_add amounts x = (if x \<in> set amounts then amounts else amounts @ [x])"

definition isFarEnough :: "jsnum \<Rightarrow> jsnum list \<Rightarrow> jsnum \<Rightarrow> bool" where
  "isFarEnough minGap amounts newAmt =
     list_all (\<lambda>existing. \<not> js_lt (js_abs (js_sub newAmt existing)) minGap) amounts"

definition denominations_for :: "jsnum \<Rightarrow> jsnum list" where
  "denominations_for remaining =
     (if js_lt remaining (Fin 20) then [Fin 5, Fin 10, Fin 20, Fin 50]
      else if js_lt remaining (Fin 100) then [Fin 10, Fin 20, Fin 50, Fin 100]
      else if js_lt remaining (Fin 500) then [Fin 50, Fin 100, Fin 200, Fin 500]
      else if js_lt remaining (Fin 2000) then [Fin 100, Fin 200, Fin 500, Fin 1000]
      else [Fin 500, Fin 1000, Fin 2000, Fin 5000])"

text \<open>The loop over the denominations, with the \<open>break\<close> once four amounts are held.\<close>

fun add_round_ups :: "jsnum \<Rightarrow> jsnum \<Rightarrow> jsnum \<Rightarrow> jsnum list \<Rightarrow> jsnum list \<Rightarrow> jsnum list" where
  "add_round_ups remaining exactAmount minGap [] amounts = amounts"
| "add_round_ups remaining exactAmount minGap (denom # rest) amounts =
     (if 4 \<le> length amounts then amounts
      else
        let roundedUp = js_mul (js_ceil (js_div remaining denom)) denom;
            amounts1 =
              (if js_gt roundedUp exactAmount \<and> isFarEnough minGap amounts roundedUp
               then set_add amounts roundedUp else amounts);
            amounts2 =
              (if length amounts1 < 4 then
                 (let oneStepUp = js_add roundedUp denom in
                  if js_gt oneStepUp exactAmount \<and> isFarEnough minGap amounts1 oneStepUp
                  then set_add amounts1 oneStepUp else amounts1)
               else amounts1)
        in add_round_ups remaining exactAmount minGap rest amounts2)"

text \<open>
  \<open>.sort((a, b) => a - b)\<close>: a stable insertion sort that moves \<open>a\<close> behind \<open>b\<close> when the
  comparator's result \<open>a - b\<close> is positive.
\<close>

fun sort_insert :: "jsnum \<Rightarrow> jsnum list \<Rightarrow> jsnum list" where
  "sort_insert a [] = [a]"
| "sort_insert a (b # bs) =
     (if js_gt (js_sub a b) (Fin 0) then b # sort_insert a bs else a # b # bs)"

definition sort_ascending :: "jsnum list \<Rightarrow> jsnum list" where
  "sort_ascending xs = foldr sort_insert xs []"

definition quickAmounts :: "jsnum \<Rightarrow> jsnum list" where
  "quickAmounts remaining =
     (if js_le remaining (Fin 0) then [Fin 10, Fin 20, Fin 50, Fin 100]
      else
        let exactAmount = js_ceil remaining;
            amounts = set_add [] exactAmount;
            denominations = denominations_for remaining;
            minGap = js_max (Fin 5) (js_mul exactAmount (Fin (5 / 100)));
            amounts' = add_round_ups remaining exactAmount minGap denominations amounts
        in take 4 (sort_ascending (filter (\<lambda>amt. js_gt amt (Fin 0)) amounts')))"

text \<open>
  Any two members of a list differ by at least \<open>minGap\<close>: each member is compared with
  every later one.
\<close>

fun spaced :: "jsnum \<Rightarrow> jsnum list \<Rightarrow> bool" where
  "spaced minGap [] = True"
| "spaced minGap (x # xs) =
     (list_all (\<lambda>y. js_ge (js_abs (js_sub y x)) minGap) xs \<and> spaced minGap xs)"

text \<open>
  The invariant of the loop of \<open>quickAmounts\<close> for a finite remaining amount, where \<open>e\<close>
  is the exact amount and \<open>g\<close> the minimum gap: the amounts are finite, pairwise distinct,
  at most four, at least \<open>e\<close>, contain \<open>e\<close>, and any two of them are \<open>g\<close> apart.
\<close>

definition amounts_invariant :: "rat \<Rightarrow> rat \<Rightarrow> jsnum list \<Rightarrow> bool" where
  "amounts_invariant e g amts =
     (distinct amts \<and> length amts \<le> 4 \<and> Fin e \<in> set amts \<and>
      (\<forall>a\<in>set amts. \<exists>q. a = Fin q \<and> e \<le> q) \<and>
      (\<forall>a\<in>set amts. \<forall>b\<in>set amts.
         a \<noteq> b \<longrightarrow> (\<exists>p q. a = Fin p \<and> b = Fin q \<and> g \<le> \<bar>p - q\<bar>)))"

section \<open>Numpad buffer\<close>

text \<open>
  The state is the string \<open>numpadDisplay\<close>; each action takes the display and returns the
  new one. \<open>split_dot\<close> is \<open>split(".")\<close>.
\<close>

fun split_dot :: "string \<Rightarrow> string list" where
  "split_dot [] = [[]]"
| "split_dot (c # cs) =
     (if c = CHR ''.'' then [] # split_dot cs
      else (case split_dot cs of [] \<Rightarrow> [[c]] | p # ps \<Rightarrow> (c # p) # ps))"

text \<open>
  The second element of the split, \<open>const [, decimal] = ...\<close>, is undefined when the split
  has one element only.
\<close>

definition decimal_part :: "string \<Rightarrow> string option" where
  "decimal_part display =
     (case split_dot display of _ # decimal # _ \<Rightarrow> Some decimal | _ \<Rightarrow> None)"

definition numpadInput :: "string \<Rightarrow> string \<Rightarrow> string" where
  "numpadInput char display =
     (if char = ''.'' \<and> CHR ''.'' \<in> set display then display
      else if CHR ''.'' \<in> set display \<and>
              (case decimal_part display of None \<Rightarrow> False
               | Some decimal \<Rightarrow> decimal \<noteq> [] \<and> 2 \<le> length decimal)
           then display
      else if 10 \<le> length display then display
      else display @ char)"

definition numpadBackspace :: "string \<Rightarrow> string" where
  "numpadBackspace display = butlast display"

definition numpadClear :: "string \<Rightarrow> string" where
  "numpadClear display = []"

datatype numpad_action = Input string | Backspace | Clear

fun numpad_step :: "string \<Rightarrow> numpad_action \<Rightarrow> string" where
  "numpad_step display (Input char) = numpadInput char display"
| "numpad_step display Backspace = numpadBackspace display"
| "numpad_step display Clear = numpadClear display"

definition numpad_run :: "numpad_action list \<Rightarrow> string" where
  "numpad_run actions = foldl numpad_step [] actions"

text \<open>
  The arguments of \<open>numpadInput\<close> named by its documentation: \<open>'0'\<close> to \<open>'9'\<close>, \<open>'.'\<close> and
  \<open>'00'\<close>.
\<close>

definition keypad_keys :: "string list" where
  "keypad_keys = map (\<lambda>c. [c]) ''0123456789.'' @ [''00'']"

fun keypad_action :: "numpad_action \<Rightarrow> bool" where
  "keypad_action (Input char) = (char \<in> set keypad_keys)"
| "keypad_action a = True"

text \<open>The number of decimal points in the buffer, and of characters after the first.\<close>

definition dot_count :: "string \<Rightarrow> nat" where
  "dot_count display = length (filter (\<lambda>c. c = CHR ''.'') display)"

definition digits_after_dot :: "string \<Rightarrow> nat" where
  "digits_after_dot display = length (tl (dropWhile (\<lambda>c. c \<noteq> CHR ''.'') display))"

section \<open>Currency formatter\<close>

text \<open>
  Symbols are written as their UTF-8 bytes. \<open>Intl.NumberFormat\<close> is not part of the
  repository; the two uses of it are parameters: \<open>format_fixed2 locale x\<close> is
  \<open>new Intl.NumberFormat(locale, {minimumFractionDigits: 2, maximumFractionDigits: 2}).format(x)\<close>,
  and \<open>currency_part currency\<close> is the value of the part of type \<open>currency\<close>, if there is
  one, in the parts of 0 formatted for the default locale in style \<open>currency\<close> with the
  narrow symbol. Either may raise (a \<open>RangeError\<close> for a malformed locale or currency
  code).
\<close>

record intl =
  format_fixed2 :: "string \<Rightarrow> jsnum \<Rightarrow> jserr + string"
  currency_part :: "string \<Rightarrow> jserr + string option"

definition DEFAULT_LOCALE :: string where
  "DEFAULT_LOCALE = ''en-US''"

definition DEFAULT_CURRENCY :: string where
  "DEFAULT_CURRENCY = ''USD''"

definition CURRENCY_SYMBOLS :: "(string \<times> string) list" where
  "CURRENCY_SYMBOLS =
     [(''EGP'', [CHR ''E'', CHR 0xC2, CHR 0xA3]),
      (''SAR'', [CHR 0xC3, CHR 0xAA]),
      (''AED'', [CHR 0xD8, CHR 0xAF, CHR ''.'', CHR 0xD8, CHR 0xA5]),
      (''INR'', [CHR 0xE2, CHR 0x82, CHR 0xB9]),
      (''EUR'', [CHR 0xE2, CHR 0x82, CHR 0xAC]),
      (''GBP'', [CHR 0xC2, CHR 0xA3]),
      (''JPY'', [CHR 0xC2, CHR 0xA5]),
      (''CNY'', [CHR 0xC2, CHR 0xA5]),
      (''USD'', ''$'')]"

text \<open>
  The currency code is a string that names no member of \<open>Object.prototype\<close>, so the
  lookup \<open>CURRENCY_SYMBOLS[currency]\<close> finds an entry of the table or nothing. The entry
  is returned when it is truthy (a non-empty string); otherwise the narrow symbol of
  \<open>Intl\<close> is tried, and the code itself is the last resort.
\<close>

definition getCurrencySymbolOnly :: "intl \<Rightarrow> string \<Rightarrow> string" where
  "getCurrencySymbolOnly I currency =
     (let fallback =
        (case currency_part I currency of
           Inl e \<Rightarrow> currency
         | Inr None \<Rightarrow> currency
         | Inr (Some v) \<Rightarrow> v)
      in case map_of CURRENCY_SYMBOLS currency of
           Some symbol \<Rightarrow> if symbol \<noteq> [] then symbol else fallback
         | None \<Rightarrow> fallback)"

text \<open>An omitted argument (\<open>None\<close>) takes the parameter's default.\<close>

definition formatCurrency :: "intl \<Rightarrow> jsval \<Rightarrow> string option \<Rightarrow> string option \<Rightarrow> jserr + string" where
  "formatCurrency I v currency_arg locale_arg =
     (let currency = (case currency_arg of None \<Rightarrow> DEFAULT_CURRENCY | Some c \<Rightarrow> c);
          locale = (case locale_arg of None \<Rightarrow> DEFAULT_LOCALE | Some l \<Rightarrow> l)
      in case v of
           Prim (PNum x) \<Rightarrow>
             if x = NaN then Inr []
             else
               let absValue = js_abs x;
                   symbol = getCurrencySymbolOnly I currency
               in (case format_fixed2 I locale absValue of
                     Inl e \<Rightarrow> Inl e
                   | Inr numberFormatted \<Rightarrow>
                       let formatted = symbol @ '' '' @ numberFormatted
                       in Inr (if js_lt x (Fin 0) then ''-'' @ formatted else formatted))
         | _ \<Rightarrow> Inr [])"

definition getCurrencyClass :: "jsval \<Rightarrow> jserr + string" where
  "getCurrencyClass v =
     (case less_than_zero v of
        Inl e \<Rightarrow> Inl e
      | Inr b \<Rightarrow> Inr (if b then ''text-red-600'' else ''text-gray-900''))"

section \<open>Properties of the rounding utility\<close>





















section \<open>Properties of the numpad buffer\<close>

lemma split_dot_not_Nil: "split_dot s \<noteq> []"
  by (induction s) (auto split: list.splits)

lemma split_dot_no_dot: "CHR ''.'' \<notin> set s \<Longrightarrow> split_dot s = [s]"
  by (induction s) auto

lemma decimal_part_after_dot:
  assumes "CHR ''.'' \<in> set d" and "dot_count d \<le> 1"
  shows "decimal_part d = Some (tl (dropWhile (\<lambda>c. c \<noteq> CHR ''.'') d))"
  using assms
proof (induction d)
  case Nil
  then show ?case by simp
next
  case (Cons c cs)
  show ?case
  proof (cases "c = CHR ''.''")
    case True
    with Cons.prems(2) have "CHR ''.'' \<notin> set cs"
      by (auto simp: dot_count_def filter_empty_conv)
    with True show ?thesis
      by (simp add: decimal_part_def split_dot_no_dot)
  next
    case False
    with Cons.prems have "CHR ''.'' \<in> set cs" "dot_count cs \<le> 1"
      by (auto simp: dot_count_def)
    then have "decimal_part cs = Some (tl (dropWhile (\<lambda>c. c \<noteq> CHR ''.'') cs))"
      by (rule Cons.IH)
    with False show ?thesis
      using split_dot_not_Nil [of cs]
      by (auto simp: decimal_part_def split: list.splits)
  qed
qed

lemma digits_after_dot_append:
  assumes "CHR ''.'' \<in> set d"
  shows "digits_after_dot (d @ k) = digits_after_dot d + length k"
proof -
  have ne: "dropWhile (\<lambda>c. c \<noteq> CHR ''.'') d \<noteq> []"
    using assms by (auto simp: dropWhile_eq_Nil_conv)
  have "dropWhile (\<lambda>c. c \<noteq> CHR ''.'') (d @ k) = dropWhile (\<lambda>c. c \<noteq> CHR ''.'') d @ k"
    using assms by (intro dropWhile_append1 [of "CHR ''.''"]) simp_all
  with ne show ?thesis
    by (simp add: digits_after_dot_def)
qed

lemma digits_after_dot_no_dot:
  "CHR ''.'' \<notin> set d \<Longrightarrow> digits_after_dot (d @ [c]) = 0"
  by (induction d) (auto simp: digits_after_dot_def)

lemma digits_after_dot_butlast: "digits_after_dot (butlast d) \<le> digits_after_dot d"
proof (cases "d = []")
  case True
  then show ?thesis by simp
next
  case False
  then obtain b c where d: "d = b @ [c]"
    by (metis append_butlast_last_id)
  show ?thesis
  proof (cases "CHR ''.'' \<in> set b")
    case True
    then show ?thesis by (simp add: d digits_after_dot_append)
  next
    case False
    then have "digits_after_dot b = 0"
      by (induction b) (auto simp: digits_after_dot_def)
    with d show ?thesis by simp
  qed
qed

lemma numpadInput_single_key:
  assumes inv: "dot_count d \<le> 1" "digits_after_dot d \<le> 2" "length d \<le> 10"
  shows "dot_count (numpadInput [c] d) \<le> 1 \<and> digits_after_dot (numpadInput [c] d) \<le> 2 \<and>
         length (numpadInput [c] d) \<le> 10"
proof (cases "numpadInput [c] d = d")
  case True
  with inv show ?thesis by simp
next
  case changed: False
  then have app: "numpadInput [c] d = d @ [c]" and len: "length d < 10"
    by (auto simp: numpadInput_def split: if_splits)
  show ?thesis
  proof (cases "CHR ''.'' \<in> set d")
    case True
    define dec where "dec = tl (dropWhile (\<lambda>c. c \<noteq> CHR ''.'') d)"
    from True have "decimal_part d = Some dec"
      unfolding dec_def using inv(1) by (rule decimal_part_after_dot)
    with changed True have "c \<noteq> CHR ''.''" and "length dec < 2"
      by (auto simp: numpadInput_def split: if_splits)
    moreover have "digits_after_dot d = length dec"
      by (simp only: digits_after_dot_def dec_def)
    ultimately have "c \<noteq> CHR ''.''" and "digits_after_dot d < 2"
      by simp_all
    then have "dot_count (d @ [c]) = dot_count d" and "digits_after_dot (d @ [c]) \<le> 2"
      using digits_after_dot_append [OF True, of "[c]"]
      by (simp_all add: dot_count_def)
    with inv(1) len show ?thesis
      by (simp add: app)
  next
    case False
    then have "filter (\<lambda>c. c = CHR ''.'') d = []"
      by (auto simp: filter_empty_conv)
    then have "dot_count (d @ [c]) \<le> 1"
      by (simp add: dot_count_def)
    with False len show ?thesis
      by (simp add: app digits_after_dot_no_dot)
  qed
qed

lemma numpadInput_dots:
  assumes "dot_count d \<le> 1" and "k \<in> set keypad_keys"
  shows "dot_count (numpadInput k d) \<le> 1"
proof (cases "k = ''.''")
  case True
  with assms(1) show ?thesis
    by (auto simp: numpadInput_def dot_count_def filter_empty_conv)
next
  case False
  with assms(2) have "CHR ''.'' \<notin> set k"
    by (auto simp: keypad_keys_def)
  then have "dot_count (d @ k) = dot_count d"
    by (auto simp: dot_count_def filter_empty_conv)
  with assms(1) show ?thesis
    by (simp add: numpadInput_def)
qed

lemma dot_count_butlast: "dot_count (butlast d) \<le> dot_count d"
  by (induction d) (auto simp: dot_count_def)

text \<open>
  The buffer holds at most one decimal point after any sequence of actions whose keys
  are those of the keypad, the key \<open>'00'\<close> included.
\<close>

lemma numpad_run_at_most_one_dot:
  assumes "list_all keypad_action actions"
  shows "dot_count (numpad_run actions) \<le> 1"
  using assms
proof (induction actions rule: rev_induct)
  case Nil
  show ?case by (simp add: numpad_run_def dot_count_def)
next
  case (snoc a actions)
  then have ih: "dot_count (numpad_run actions) \<le> 1" and a: "keypad_action a"
    by simp_all
  show ?case
  proof (cases a)
    case (Input k)
    with a have "k \<in> set keypad_keys"
      by simp
    from numpadInput_dots [OF ih this] Input show ?thesis
      by (simp add: numpad_run_def)
  next
    case Backspace
    with ih dot_count_butlast [of "numpad_run actions"] show ?thesis
      by (simp add: numpad_run_def numpadBackspace_def)
  next
    case Clear
    then show ?thesis
      by (simp add: numpad_run_def numpadClear_def dot_count_def)
  qed
qed

text \<open>
  With keys of one character the three bounds hold after any sequence of actions.
\<close>

lemma numpad_run_single_keys:
  assumes "list_all (\<lambda>a. case a of Input k \<Rightarrow> length k = 1 | _ \<Rightarrow> True) actions"
  shows "dot_count (numpad_run actions) \<le> 1 \<and> digits_after_dot (numpad_run actions) \<le> 2 \<and>
         length (numpad_run actions) \<le> 10"
  using assms
proof (induction actions rule: rev_induct)
  case Nil
  show ?case by (simp add: numpad_run_def dot_count_def digits_after_dot_def)
next
  case (snoc a actions)
  then have ih: "dot_count (numpad_run actions) \<le> 1" "digits_after_dot (numpad_run actions) \<le> 2"
      "length (numpad_run actions) \<le> 10"
    and a: "case a of Input k \<Rightarrow> length k = 1 | _ \<Rightarrow> True"
    by simp_all
  show ?case
  proof (cases a)
    case (Input k)
    with a obtain c where "k = [c]"
      by (cases k) auto
    with Input numpadInput_single_key [OF ih, of c] show ?thesis
      by (simp add: numpad_run_def)
  next
    case Backspace
    with ih dot_count_butlast [of "numpad_run actions"]
      digits_after_dot_butlast [of "numpad_run actions"]
    show ?thesis
      by (simp add: numpad_run_def numpadBackspace_def)
  next
    case Clear
    then show ?thesis
      by (simp add: numpad_run_def numpadClear_def dot_count_def digits_after_dot_def)
  qed
qed

text \<open>
  Claim C4. The buffer is meant to hold at most one decimal point, at most 2 characters
  after it and at most 10 characters. The first bound holds for all keys of the keypad
  and all three hold for keys of one character (the two lemmas above). The key \<open>'00'\<close>
  appends two characters after the checks have looked for room for one: from the empty
  buffer, the keys \<open>1 . 5 00\<close> leave \<open>1.500\<close>, with 3 digits after the point, and nine
  times \<open>1\<close> followed by \<open>00\<close> leaves a buffer of length 11.
\<close>

theorem numpadInput_double_zero_overflow:
  "list_all keypad_action [Input ''1'', Input ''.'', Input ''5'', Input ''00''] \<and>
   numpad_run [Input ''1'', Input ''.'', Input ''5'', Input ''00''] = ''1.500'' \<and>
   digits_after_dot (numpad_run [Input ''1'', Input ''.'', Input ''5'', Input ''00'']) = 3 \<and>
   list_all keypad_action (replicate 9 (Input ''1'') @ [Input ''00'']) \<and>
   numpad_run (replicate 9 (Input ''1'') @ [Input ''00'']) = ''11111111100'' \<and>
   length (numpad_run (replicate 9 (Input ''1'') @ [Input ''00''])) = 11"
  by code_simp

section \<open>Properties of the currency formatter\<close>

text \<open>
  Claim C9. \<open>formatCurrency\<close> returns the empty string for a value that is not a number
  and for NaN. For a negative number it formats the absolute value and returns a minus
  sign, the currency symbol, a space and the formatted absolute value (an exception of
  \<open>Intl.NumberFormat\<close> is passed on). In particular \<open>formatCurrency(-5, "USD")\<close> is \<open>-$ \<close>
  followed by the formatted 5, and \<open>formatCurrency(NaN, "USD")\<close> is the empty string.
\<close>

theorem formatCurrency_negative_and_invalid:
  "(\<not> typeof_number v \<longrightarrow> formatCurrency I v c l = Inr []) \<and>
   formatCurrency I (Prim (PNum NaN)) c l = Inr [] \<and>
   (js_lt x (Fin 0) \<longrightarrow>
      formatCurrency I (Prim (PNum x)) c l =
        (case format_fixed2 I (case l of None \<Rightarrow> DEFAULT_LOCALE | Some l' \<Rightarrow> l') (js_abs x) of
           Inl e \<Rightarrow> Inl e
         | Inr numberFormatted \<Rightarrow>
             Inr (''-'' @ getCurrencySymbolOnly I (case c of None \<Rightarrow> DEFAULT_CURRENCY | Some c' \<Rightarrow> c')
                  @ '' '' @ numberFormatted))) \<and>
   (format_fixed2 I ''en-US'' (Fin 5) = Inr s \<longrightarrow>
      formatCurrency I (Prim (PNum (Fin (- 5)))) (Some ''USD'') None = Inr (''-$ '' @ s)) \<and>
   formatCurrency I (Prim (PNum NaN)) (Some ''USD'') None = Inr []"
proof -
  have a: "\<not> typeof_number v \<longrightarrow> formatCurrency I v c l = Inr []"
    by (cases v rule: typeof_number.cases) (simp_all add: formatCurrency_def)
  have b: "formatCurrency I (Prim (PNum NaN)) c' l' = Inr []" for c' l'
    by (simp add: formatCurrency_def)
  have d: "js_lt x (Fin 0) \<longrightarrow>
      formatCurrency I (Prim (PNum x)) c l =
        (case format_fixed2 I (case l of None \<Rightarrow> DEFAULT_LOCALE | Some l' \<Rightarrow> l') (js_abs x) of
           Inl e \<Rightarrow> Inl e
         | Inr numberFormatted \<Rightarrow>
             Inr (''-'' @ getCurrencySymbolOnly I (case c of None \<Rightarrow> DEFAULT_CURRENCY | Some c' \<Rightarrow> c')
                  @ '' '' @ numberFormatted))"
    by (cases x) (auto simp: formatCurrency_def Let_def split: sum.splits)
  have e: "format_fixed2 I ''en-US'' (Fin 5) = Inr s \<longrightarrow>
      formatCurrency I (Prim (PNum (Fin (- 5)))) (Some ''USD'') None = Inr (''-$ '' @ s)"
    by (simp add: formatCurrency_def DEFAULT_LOCALE_def getCurrencySymbolOnly_def
        CURRENCY_SYMBOLS_def)
  from a b d e show ?thesis by blast
qed

theorem formatCurrency_negative_and_invalid_witness:
  "\<not> typeof_number (Prim (PStr ''12'')) \<and>
   formatCurrency \<lparr>format_fixed2 = (\<lambda>l x. Inr ''5.00''), currency_part = (\<lambda>c. Inr None)\<rparr>
     (Prim (PStr ''12'')) None None = Inr [] \<and>
   js_lt (Fin (- 5)) (Fin 0) \<and>
   format_fixed2 \<lparr>format_fixed2 = (\<lambda>l x. Inr ''5.00''), currency_part = (\<lambda>c. Inr None)\<rparr>
     ''en-US'' (Fin 5) = Inr ''5.00'' \<and>
   formatCurrency \<lparr>format_fixed2 = (\<lambda>l x. Inr ''5.00''), currency_part = (\<lambda>c. Inr None)\<rparr>
     (Prim (PNum (Fin (- 5)))) (Some ''USD'') None = Inr ''-$ 5.00''"
  using formatCurrency_negative_and_invalid
    [of "Prim (PStr ''12'')" "\<lparr>format_fixed2 = (\<lambda>l x. Inr ''5.00''), currency_part = (\<lambda>c. Inr None)\<rparr>"
        None None "Fin (- 5)" "''5.00''"]
  by simp

text \<open>
  Claim C10, as stated, fails: the string \<open>"-5"\<close> is not a number and takes the negative
  branch, since \<open><\<close> converts it to the number -5; and a symbol makes the comparison
  raise a TypeError.
\<close>

theorem getCurrencyClass_string_and_symbol:
  "getCurrencyClass (Prim (PStr ''-5'')) = Inr ''text-red-600'' \<and>
   getCurrencyClass (Prim PSymbol) = Inl TypeError"
  by code_simp

text \<open>
  Claim C10, amended. On a number \<open>getCurrencyClass\<close> returns \<open>text-red-600\<close> when the
  number is below 0 and \<open>text-gray-900\<close> otherwise, NaN included. On undefined, null and a
  boolean it returns \<open>text-gray-900\<close>. A string is converted to a number and a BigInt is
  compared by its value, so either returns \<open>text-red-600\<close> when that number is below 0.
  A symbol raises a TypeError. An object behaves as the primitive it converts to, and
  raises what that conversion raises.
\<close>

theorem getCurrencyClass_cases:
  "getCurrencyClass (Prim (PNum x)) =
     Inr (if js_lt x (Fin 0) then ''text-red-600'' else ''text-gray-900'') \<and>
   getCurrencyClass (Prim (PNum NaN)) = Inr ''text-gray-900'' \<and>
   getCurrencyClass (Prim PUndefined) = Inr ''text-gray-900'' \<and>
   getCurrencyClass (Prim PNull) = Inr ''text-gray-900'' \<and>
   getCurrencyClass (Prim (PBool b)) = Inr ''text-gray-900'' \<and>
   getCurrencyClass (Prim (PStr s)) =
     Inr (if js_lt (StringToNumber s) (Fin 0) then ''text-red-600'' else ''text-gray-900'') \<and>
   getCurrencyClass (Prim (PBigInt i)) =
     Inr (if i < 0 then ''text-red-600'' else ''text-gray-900'') \<and>
   getCurrencyClass (Prim PSymbol) = Inl TypeError \<and>
   getCurrencyClass (Obj (Inl e)) = Inl e \<and>
   getCurrencyClass (Obj (Inr p)) = getCurrencyClass (Prim p)"
  by (simp add: getCurrencyClass_def less_than_zero_def)

section \<open>Properties of the payment calculator\<close>


lemma js_sub_not_both_positive:
  "\<not> (js_gt (js_sub a b) (Fin 0) \<and> js_gt (js_sub b a) (Fin 0))"
  by (cases a; cases b) (auto simp: js_sub_def js_gt_def)







text \<open>
  Claim C2. For the same payment entries and grand total, \<open>changeAmount\<close> and
  \<open>remainingAmount\<close> are never both above 0: one of the two is 0.
\<close>

theorem changeAmount_remainingAmount_exclusive:
  "(remainingAmount es gt = Fin 0 \<or> changeAmount es gt = Fin 0) \<and>
   \<not> (js_gt (remainingAmount es gt) (Fin 0) \<and> js_gt (changeAmount es gt) (Fin 0))"
proof -
  have "remainingAmount es gt = Fin 0 \<or> changeAmount es gt = Fin 0"
    using js_sub_not_both_positive [of "round2_number gt" "totalPaid es"]
    by (auto simp: remainingAmount_def changeAmount_def)
  moreover have "\<not> js_gt (Fin 0) (Fin 0)"
    by (simp add: js_gt_def)
  ultimately show ?thesis by auto
qed








section \<open>Properties of the quick-amount suggester\<close>

lemma set_add_invariant:
  assumes dist: "distinct amts"
    and len: "length amts < 4"
    and fin: "\<forall>a\<in>set amts. \<exists>q. a = Fin q \<and> e \<le> q"
    and gap: "\<forall>a\<in>set amts. \<forall>b\<in>set amts. a \<noteq> b \<longrightarrow> (\<exists>p q. a = Fin p \<and> b = Fin q \<and> g \<le> \<bar>p - q\<bar>)"
    and gt: "js_gt (Fin x) (Fin e)"
    and far: "isFarEnough (Fin g) amts (Fin x)"
  shows "distinct (set_add amts (Fin x)) \<and> length (set_add amts (Fin x)) \<le> 4 \<and>
         set amts \<subseteq> set (set_add amts (Fin x)) \<and>
         (\<forall>a\<in>set (set_add amts (Fin x)). \<exists>q. a = Fin q \<and> e \<le> q) \<and>
         (\<forall>a\<in>set (set_add amts (Fin x)). \<forall>b\<in>set (set_add amts (Fin x)).
            a \<noteq> b \<longrightarrow> (\<exists>p q. a = Fin p \<and> b = Fin q \<and> g \<le> \<bar>p - q\<bar>))"
proof (cases "Fin x \<in> set amts")
  case True
  with assms show ?thesis by (simp add: set_add_def)
next
  case False
  have ex: "e \<le> x"
    using gt by (simp add: js_gt_def)
  have new: "g \<le> \<bar>x - p\<bar>" if "Fin p \<in> set amts" for p
    using far that by (auto simp: isFarEnough_def list_all_iff js_sub_def)
  have pair: "\<exists>p q. a = Fin p \<and> b = Fin q \<and> g \<le> \<bar>p - q\<bar>"
    if ab: "a \<in> insert (Fin x) (set amts)" "b \<in> insert (Fin x) (set amts)" "a \<noteq> b" for a b
  proof -
    consider "a = Fin x" "b \<in> set amts" | "b = Fin x" "a \<in> set amts"
      | "a \<in> set amts" "b \<in> set amts"
      using ab by auto
    then show ?thesis
    proof cases
      case 1
      with fin obtain q where "b = Fin q" by blast
      with 1 new [of q] show ?thesis by auto
    next
      case 2
      with fin obtain p where "a = Fin p" by blast
      with 2 new [of p] show ?thesis by (auto simp: abs_minus_commute)
    next
      case 3
      with gap ab show ?thesis by blast
    qed
  qed
  from False dist len fin ex pair show ?thesis
    by (auto simp: set_add_def)
qed

lemma accept_invariant:
  assumes inv: "amounts_invariant e g amts" and len: "length amts < 4"
  shows "amounts_invariant e g
           (if js_gt (Fin x) (Fin e) \<and> isFarEnough (Fin g) amts (Fin x)
            then set_add amts (Fin x) else amts)"
proof (cases "js_gt (Fin x) (Fin e) \<and> isFarEnough (Fin g) amts (Fin x)")
  case True
  from inv have "distinct amts"
    and "\<forall>a\<in>set amts. \<exists>q. a = Fin q \<and> e \<le> q"
    and "\<forall>a\<in>set amts. \<forall>b\<in>set amts. a \<noteq> b \<longrightarrow> (\<exists>p q. a = Fin p \<and> b = Fin q \<and> g \<le> \<bar>p - q\<bar>)"
    and mem: "Fin e \<in> set amts"
    by (simp_all add: amounts_invariant_def)
  from set_add_invariant [OF this(1) len this(2) this(3)] True
  have "distinct (set_add amts (Fin x)) \<and> length (set_add amts (Fin x)) \<le> 4 \<and>
         set amts \<subseteq> set (set_add amts (Fin x)) \<and>
         (\<forall>a\<in>set (set_add amts (Fin x)). \<exists>q. a = Fin q \<and> e \<le> q) \<and>
         (\<forall>a\<in>set (set_add amts (Fin x)). \<forall>b\<in>set (set_add amts (Fin x)).
            a \<noteq> b \<longrightarrow> (\<exists>p q. a = Fin p \<and> b = Fin q \<and> g \<le> \<bar>p - q\<bar>))"
    by blast
  with mem have "amounts_invariant e g (set_add amts (Fin x))"
    unfolding amounts_invariant_def by blast
  with True show ?thesis by simp
next
  case False
  with inv show ?thesis by auto
qed

lemma add_round_ups_invariant:
  assumes "amounts_invariant e g amts" and "\<forall>d\<in>set ds. \<exists>q. d = Fin q \<and> q \<noteq> 0"
  shows "amounts_invariant e g (add_round_ups (Fin r) (Fin e) (Fin g) ds amts)"
  using assms
proof (induction ds arbitrary: amts)
  case Nil
  then show ?case by simp
next
  case (Cons denom rest)
  then obtain d where d: "denom = Fin d" "d \<noteq> 0"
    by auto
  show ?case
  proof (cases "4 \<le> length amts")
    case True
    with Cons.prems show ?thesis by simp
  next
    case False
    then have len: "length amts < 4" by simp
    define x where "x = of_int \<lceil>r / d\<rceil> * d"
    define amounts1 where "amounts1 =
      (if js_gt (Fin x) (Fin e) \<and> isFarEnough (Fin g) amts (Fin x)
       then set_add amts (Fin x) else amts)"
    define amounts2 where "amounts2 =
      (if length amounts1 < 4 then
         (if js_gt (Fin (x + d)) (Fin e) \<and> isFarEnough (Fin g) amounts1 (Fin (x + d))
          then set_add amounts1 (Fin (x + d)) else amounts1)
       else amounts1)"
    have i1: "amounts_invariant e g amounts1"
      unfolding amounts1_def using Cons.prems(1) len by (rule accept_invariant)
    have i2: "amounts_invariant e g amounts2"
    proof (cases "length amounts1 < 4")
      case True
      with accept_invariant [OF i1 True, of "x + d"] show ?thesis
        by (simp add: amounts2_def)
    next
      case False
      with i1 show ?thesis by (simp add: amounts2_def)
    qed
    have "add_round_ups (Fin r) (Fin e) (Fin g) (denom # rest) amts =
            add_round_ups (Fin r) (Fin e) (Fin g) rest amounts2"
    proof -
      have ru: "js_mul (js_ceil (js_div (Fin r) denom)) denom = Fin x"
        using d by (simp add: x_def)
      have os: "js_add (Fin x) denom = Fin (x + d)"
        using d by simp
      show ?thesis
        by (simp only: add_round_ups.simps Let_def ru os amounts1_def amounts2_def False if_False)
    qed
    moreover have "amounts_invariant e g (add_round_ups (Fin r) (Fin e) (Fin g) rest amounts2)"
      using i2 Cons.prems(2) by (intro Cons.IH) simp_all
    ultimately show ?thesis by simp
  qed
qed

lemma sort_insert_Fin: "sort_insert (Fin q) (map Fin qs) = map Fin (insort q qs)"
  by (induction qs) (auto simp: js_gt_def js_sub_def)

lemma sort_ascending_Fin: "sort_ascending (map Fin qs) = map Fin (sort qs)"
  by (induction qs) (simp_all add: sort_ascending_def sort_insert_Fin)

lemma spaced_Fin_pairwise:
  assumes "distinct qs"
    and "\<forall>p\<in>set qs. \<forall>q\<in>set qs. p \<noteq> q \<longrightarrow> g \<le> \<bar>p - q\<bar>"
  shows "spaced (Fin g) (map Fin qs)"
  using assms
proof (induction qs)
  case Nil
  show ?case by simp
next
  case (Cons q qs)
  then have "\<forall>p\<in>set qs. g \<le> \<bar>p - q\<bar>"
    by auto
  with Cons show ?case
    by (auto simp: list_all_iff js_ge_def js_le_def js_sub_def)
qed

lemma denominations_for_finite: "\<forall>d\<in>set (denominations_for x). \<exists>q. d = Fin q \<and> q \<noteq> 0"
  by (simp add: denominations_for_def)

lemma quickAmounts_finite:
  assumes "0 < r"
  defines "e \<equiv> of_int \<lceil>r\<rceil>"
  defines "g \<equiv> (if 5 < e * (5 / 100) then e * (5 / 100) else 5 :: rat)"
  shows "\<exists>qs. quickAmounts (Fin r) = map Fin qs \<and> length qs \<le> 4 \<and> distinct qs \<and>
           sorted qs \<and> e \<in> set qs \<and> (\<forall>q\<in>set qs. e \<le> q) \<and>
           (\<forall>p\<in>set qs. \<forall>q\<in>set qs. p \<noteq> q \<longrightarrow> g \<le> \<bar>p - q\<bar>)"
proof -
  define amts where "amts =
    add_round_ups (Fin r) (Fin e) (Fin g) (denominations_for (Fin r)) (set_add [] (Fin e))"
  have e1: "1 \<le> e"
  proof -
    from assms(1) have "1 \<le> \<lceil>r\<rceil>" by simp
    then have "(of_int 1 :: rat) \<le> of_int \<lceil>r\<rceil>" by (simp only: of_int_le_iff)
    then show ?thesis by (simp add: e_def)
  qed
  have "amounts_invariant e g (set_add [] (Fin e))"
    by (simp add: amounts_invariant_def set_add_def)
  then have inv: "amounts_invariant e g amts"
    unfolding amts_def using denominations_for_finite by (rule add_round_ups_invariant)
  then have "\<forall>a\<in>set amts. \<exists>q. a = Fin q"
    unfolding amounts_invariant_def by blast
  then obtain ps where ps: "amts = map Fin ps"
    using ex_map_conv [of amts Fin] by blast
  have inj: "inj_on Fin (set ps)"
    by (simp add: inj_on_def)
  from inv have props: "distinct ps" "length ps \<le> 4" "e \<in> set ps" "\<forall>q\<in>set ps. e \<le> q"
    "\<forall>p\<in>set ps. \<forall>q\<in>set ps. p \<noteq> q \<longrightarrow> g \<le> \<bar>p - q\<bar>"
    unfolding amounts_invariant_def ps
    by (auto simp: distinct_map)
  have keep: "filter (\<lambda>amt. js_gt amt (Fin 0)) amts = amts"
    unfolding ps using props(4) e1 by (auto simp: filter_id_conv js_gt_def)
  have "quickAmounts (Fin r) = take 4 (sort_ascending (filter (\<lambda>amt. js_gt amt (Fin 0)) amts))"
    using assms(1)
    by (simp add: quickAmounts_def js_le_def Let_def amts_def e_def g_def js_max_def)
  also have "\<dots> = map Fin (sort ps)"
    unfolding keep using props(2) by (simp add: ps sort_ascending_Fin)
  finally have "quickAmounts (Fin r) = map Fin (sort ps)" .
  with props show ?thesis
    by (intro exI [of _ "sort ps"]) simp
qed

lemma quickAmounts_PosInf: "quickAmounts PosInf = [PosInf]"
  by code_simp

text \<open>
  Claim C3. For a remaining amount above 0, \<open>quickAmounts\<close> returns at most 4 values,
  without repetition, in strictly ascending order, all above 0 and at least
  \<open>ceil(remaining)\<close>, and any two of them differ by at least
  \<open>minGap = max(5, ceil(remaining) * 0.05)\<close>.
\<close>

theorem quickAmounts_positive:
  assumes "js_gt remaining (Fin 0)"
  shows "length (quickAmounts remaining) \<le> 4 \<and>
         distinct (quickAmounts remaining) \<and>
         sorted_wrt js_lt (quickAmounts remaining) \<and>
         list_all (\<lambda>a. js_gt a (Fin 0)) (quickAmounts remaining) \<and>
         list_all (\<lambda>a. js_ge a (js_ceil remaining)) (quickAmounts remaining) \<and>
         spaced (js_max (Fin 5) (js_mul (js_ceil remaining) (Fin (5 / 100))))
           (quickAmounts remaining)"
proof (cases remaining)
  case (Fin r)
  with assms have r: "0 < r"
    by (simp add: js_gt_def)
  define e :: rat where "e = of_int \<lceil>r\<rceil>"
  define g :: rat where "g = (if 5 < e * (5 / 100) then e * (5 / 100) else 5)"
  from quickAmounts_finite [OF r] obtain qs where
    qs: "quickAmounts (Fin r) = map Fin qs" "length qs \<le> 4" "distinct qs" "sorted qs"
      "\<forall>q\<in>set qs. e \<le> q" "\<forall>p\<in>set qs. \<forall>q\<in>set qs. p \<noteq> q \<longrightarrow> g \<le> \<bar>p - q\<bar>"
    unfolding e_def g_def by blast
  from r have "1 \<le> \<lceil>r\<rceil>" by simp
  then have "(of_int 1 :: rat) \<le> of_int \<lceil>r\<rceil>" by (simp only: of_int_le_iff)
  then have e1: "1 \<le> e" by (simp add: e_def)
  have ce: "js_ceil remaining = Fin e"
    by (simp add: Fin e_def)
  have gap: "js_max (Fin 5) (js_mul (Fin e) (Fin (5 / 100))) = Fin g"
    by (simp add: js_max_def g_def)
  have q1: "quickAmounts remaining = map Fin qs"
    using qs(1) Fin by simp
  have "distinct (map Fin qs)"
    using qs(3) by (simp add: distinct_map inj_on_def)
  moreover have "sorted_wrt js_lt (map Fin qs)"
    using qs(3,4) by (simp add: sorted_wrt_map strict_sorted_iff)
  moreover have "list_all (\<lambda>a. js_gt a (Fin 0)) (map Fin qs)"
    using qs(5) e1 by (auto simp: list_all_iff js_gt_def)
  moreover have "list_all (\<lambda>a. js_ge a (Fin e)) (map Fin qs)"
    using qs(5) by (auto simp: list_all_iff js_ge_def js_le_def)
  moreover have "spaced (Fin g) (map Fin qs)"
    using qs(3,6) by (rule spaced_Fin_pairwise)
  ultimately show ?thesis
    unfolding ce gap q1 using qs(2) by simp
next
  case PosInf
  then show ?thesis
    by (simp add: quickAmounts_PosInf js_gt_def js_ge_def js_le_def js_max_def)
qed (use assms in \<open>simp_all add: js_gt_def\<close>)

theorem quickAmounts_positive_witness:
  "js_gt (Fin 37) (Fin 0) \<and>
   quickAmounts (Fin 37) = [Fin 37, Fin 50, Fin 60, Fin 100] \<and>
   length (quickAmounts (Fin 37)) \<le> 4 \<and>
   distinct (quickAmounts (Fin 37)) \<and>
   sorted_wrt js_lt (quickAmounts (Fin 37)) \<and>
   list_all (\<lambda>a. js_gt a (Fin 0)) (quickAmounts (Fin 37)) \<and>
   list_all (\<lambda>a. js_ge a (js_ceil (Fin 37))) (quickAmounts (Fin 37)) \<and>
   spaced (js_max (Fin 5) (js_mul (js_ceil (Fin 37)) (Fin (5 / 100)))) (quickAmounts (Fin 37))"
proof -
  have h: "js_gt (Fin 37) (Fin 0)"
    by (simp add: js_gt_def)
  have v: "quickAmounts (Fin 37) = [Fin 37, Fin 50, Fin 60, Fin 100]"
    by code_simp
  from quickAmounts_positive [OF h] h v show ?thesis
    by blast
qed

text \<open>
  Claim C8. For a remaining amount of 0 or less, \<open>quickAmounts\<close> returns the list
  \<open>[10, 20, 50, 100]\<close>; for a remaining amount above 0, the returned list contains
  \<open>ceil(remaining)\<close>.
\<close>

theorem quickAmounts_fallback_and_exact:
  "(js_le remaining (Fin 0) \<longrightarrow> quickAmounts remaining = [Fin 10, Fin 20, Fin 50, Fin 100]) \<and>
   (js_gt remaining (Fin 0) \<longrightarrow> js_ceil remaining \<in> set (quickAmounts remaining))"
proof -
  have "js_ceil remaining \<in> set (quickAmounts remaining)" if pos: "js_gt remaining (Fin 0)"
  proof (cases remaining)
    case (Fin r)
    with pos have "0 < r"
      by (simp add: js_gt_def)
    from quickAmounts_finite [OF this] show ?thesis
      by (auto simp: Fin)
  next
    case PosInf
    then show ?thesis by (simp add: quickAmounts_PosInf)
  qed (use pos in \<open>simp_all add: js_gt_def\<close>)
  then show ?thesis
    by (simp add: quickAmounts_def)
qed

theorem quickAmounts_fallback_and_exact_witness:
  "js_le (Fin 0) (Fin 0) \<and>
   quickAmounts (Fin 0) = [Fin 10, Fin 20, Fin 50, Fin 100] \<and>
   js_gt (Fin (73 / 2)) (Fin 0) \<and>
   js_ceil (Fin (73 / 2)) \<in> set (quickAmounts (Fin (73 / 2)))"
proof -
  have h0: "js_le (Fin 0) (Fin 0)"
    by (simp add: js_le_def)
  have h1: "js_gt (Fin (73 / 2)) (Fin 0)"
    by (simp add: js_gt_def)
  from quickAmounts_fallback_and_exact [of "Fin 0"] quickAmounts_fallback_and_exact [of "Fin (73 / 2)"]
    h0 h1
  show ?thesis by blast
qed

end
